theory Spec2Isabelle
  imports Complex_Main
begin

section \<open>Bayesian smoothing of a raster: \<^verbatim>\<open>src/prob_prior_neigh.cpp\<close>\<close>

text \<open>
  The file has three functions. \<^verbatim>\<open>build_neigh\<close> scans a window of integer weights
  centred on a cell and collects the weighted values of the neighbours that qualify;
  \<^verbatim>\<open>bayes_estimator_pixel\<close> blends the logit of the cell with the mean logit of its
  neighbours; \<^verbatim>\<open>bayes_estimator_class\<close> runs both over every cell and writes the
  results into a flat vector.
\<close>

subsection \<open>Doubles\<close>

text \<open>
  A \<^verbatim>\<open>double\<close> is modelled by the value it denotes: not-a-number, one of the two
  infinities, or a finite real. The special values follow IEEE 754 (a NaN operand gives
  NaN, \<open>\<infinity> - \<infinity>\<close>, \<open>0 * \<infinity>\<close>, \<open>0 / 0\<close> and \<open>\<infinity> / \<infinity>\<close> are NaN, a non-zero finite
  value divided by zero is an infinity, the logarithm of zero is \<open>-\<infinity>\<close> and that of a
  negative value is NaN). Finite arithmetic is exact: rounding and overflow to infinity
  are not modelled, the two zeros are one value (a division by zero takes the sign of
  the dividend), and all NaNs are one value. The theorems below are therefore limited to
  properties that do not depend on how a finite result is rounded.
\<close>

datatype double = NaN | PInf | MInf | Fin real

fun isnan :: "double \<Rightarrow> bool" where
  "isnan NaN = True"
| "isnan _ = False"

fun isfinite :: "double \<Rightarrow> bool" where
  "isfinite (Fin _) = True"
| "isfinite _ = False"

text \<open>The infinity with the sign of \<open>s\<close>; NaN when \<open>s\<close> is zero.\<close>

definition signed_inf :: "real \<Rightarrow> double" where
  "signed_inf s = (if 0 < s then PInf else if s < 0 then MInf else NaN)"

instantiation double :: "{plus, uminus, times, divide}"
begin

fun uminus_double :: "double \<Rightarrow> double" where
  "uminus_double NaN = NaN"
| "uminus_double PInf = MInf"
| "uminus_double MInf = PInf"
| "uminus_double (Fin x) = Fin (- x)"

fun plus_double :: "double \<Rightarrow> double \<Rightarrow> double" where
  "plus_double NaN _ = NaN"
| "plus_double _ NaN = NaN"
| "plus_double PInf MInf = NaN"
| "plus_double MInf PInf = NaN"
| "plus_double PInf _ = PInf"
| "plus_double _ PInf = PInf"
| "plus_double MInf _ = MInf"
| "plus_double _ MInf = MInf"
| "plus_double (Fin x) (Fin y) = Fin (x + y)"

fun times_double :: "double \<Rightarrow> double \<Rightarrow> double" where
  "times_double NaN _ = NaN"
| "times_double _ NaN = NaN"
| "times_double PInf PInf = PInf"
| "times_double PInf MInf = MInf"
| "times_double MInf PInf = MInf"
| "times_double MInf MInf = PInf"
| "times_double PInf (Fin y) = signed_inf y"
| "times_double MInf (Fin y) = signed_inf (- y)"
| "times_double (Fin x) PInf = signed_inf x"
| "times_double (Fin x) MInf = signed_inf (- x)"
| "times_double (Fin x) (Fin y) = Fin (x * y)"

fun divide_double :: "double \<Rightarrow> double \<Rightarrow> double" where
  "divide_double NaN _ = NaN"
| "divide_double _ NaN = NaN"
| "divide_double PInf (Fin y) = (if 0 \<le> y then PInf else MInf)"
| "divide_double MInf (Fin y) = (if 0 \<le> y then MInf else PInf)"
| "divide_double (Fin x) (Fin y) = (if y = 0 then signed_inf x else Fin (x / y))"
| "divide_double (Fin x) _ = Fin 0"
| "divide_double _ _ = NaN"

instance ..

end

instantiation double :: "{minus, inverse}"
begin

definition minus_double :: "double \<Rightarrow> double \<Rightarrow> double" where
  "minus_double a b = a + (- b)"

definition inverse_double :: "double \<Rightarrow> double" where
  "inverse_double a = divide (Fin 1) a"

instance ..

end

text \<open>\<^verbatim>\<open>std::log\<close>.\<close>

fun log_double :: "double \<Rightarrow> double" where
  "log_double NaN = NaN"
| "log_double PInf = PInf"
| "log_double MInf = NaN"
| "log_double (Fin x) = (if x < 0 then NaN else if x = 0 then MInf else Fin (ln x))"

text \<open>The conversion of an \<^verbatim>\<open>int\<close> operand to \<^verbatim>\<open>double\<close>, which is exact.\<close>

definition as_double :: "int \<Rightarrow> double" where
  "as_double n = Fin (real_of_int n)"

subsection \<open>32-bit integers and matrices\<close>

text \<open>
  The index arithmetic of the source is done in \<^verbatim>\<open>int\<close>. Loop counters and
  dimensions never leave \<open>0 .. 2\<^sup>3\<^sup>1 - 1\<close> and are natural numbers here; a sum, difference
  or product that can leave the range is wrapped to 32 bits in two's complement by
  \<open>int32\<close>. The language leaves signed overflow undefined; the wrapped value is what
  the arithmetic instructions of the compiled code compute.
\<close>

definition int_max :: nat where
  "int_max = 2147483647"

definition int32 :: "int \<Rightarrow> int" where
  "int32 x = (x + 2147483648) mod 4294967296 - 2147483648"

text \<open>
  \<^verbatim>\<open>NumericMatrix\<close> and \<^verbatim>\<open>IntegerMatrix\<close>: the two dimensions and the accessor
  \<^verbatim>\<open>m(i, j)\<close>. The dimensions of a matrix of the host are \<^verbatim>\<open>int\<close>s that are not
  negative.
\<close>

record 'a matrix =
  nrow :: nat
  ncol :: nat
  cell :: "nat \<Rightarrow> nat \<Rightarrow> 'a"

definition wf_matrix :: "'a matrix \<Rightarrow> bool" where
  "wf_matrix m = (nrow m \<le> int_max \<and> ncol m \<le> int_max)"

subsection \<open>\<^verbatim>\<open>build_neigh\<close>\<close>

text \<open>
  The expression \<^verbatim>\<open>i + k - window.rows() / 2\<close> (and the same for columns): \<open>c\<close> is
  the coordinate of the centre, \<open>k\<close> the position in the window, \<open>n\<close> the size of the
  window in that direction.
\<close>

definition data_index :: "nat \<Rightarrow> nat \<Rightarrow> nat \<Rightarrow> int" where
  "data_index c k n = int32 (int32 (int c + int k) - int n div 2)"

text \<open>The inner loop, over the columns \<open>l\<close> of the window; \<open>neigh\<close> is the vector built so far.\<close>

function build_neigh_l ::
  "double matrix \<Rightarrow> int matrix \<Rightarrow> nat \<Rightarrow> nat \<Rightarrow> nat \<Rightarrow> nat \<Rightarrow> double list \<Rightarrow> double list" where
  "build_neigh_l data window i j k l neigh =
     (if l < ncol window then
        (let data_i = data_index i k (nrow window);
             data_j = data_index j l (ncol window)
         in build_neigh_l data window i j k (l + 1)
              (if data_i \<ge> 0 \<and> data_j \<ge> 0 \<and>
                  data_i < int (nrow data) \<and> data_j < int (ncol data) \<and> cell window k l > 0 \<and>
                  \<not> isnan (cell data (nat data_i) (nat data_j))
               then neigh @ [cell data (nat data_i) (nat data_j) * as_double (cell window k l)]
               else neigh))
      else neigh)"
  by pat_completeness auto
termination
  by (relation "measure (\<lambda>(data, window, i, j, k, l, neigh). ncol window - l)") auto

text \<open>The outer loop, over the rows \<open>k\<close> of the window.\<close>

function build_neigh_k ::
  "double matrix \<Rightarrow> int matrix \<Rightarrow> nat \<Rightarrow> nat \<Rightarrow> nat \<Rightarrow> double list \<Rightarrow> double list" where
  "build_neigh_k data window i j k neigh =
     (if k < nrow window then
        build_neigh_k data window i j (k + 1) (build_neigh_l data window i j k 0 neigh)
      else neigh)"
  by pat_completeness auto
termination
  by (relation "measure (\<lambda>(data, window, i, j, k, neigh). nrow window - k)") auto

definition build_neigh :: "double matrix \<Rightarrow> int matrix \<Rightarrow> nat \<Rightarrow> nat \<Rightarrow> double list" where
  "build_neigh data window i j = build_neigh_k data window i j 0 []"


subsection \<open>\<^verbatim>\<open>bayes_estimator_pixel\<close>\<close>

text \<open>
  The vector operations of the estimator belong to the host's library and work
  element by element: \<^verbatim>\<open>10000 - neigh\<close>, the quotient of two vectors and \<^verbatim>\<open>log\<close>.
  \<^verbatim>\<open>mean\<close> is the sum divided by the number of elements, \<^verbatim>\<open>var\<close> the sum of the
  squared deviations from the mean divided by the number of elements minus one, a signed
  count that is \<open>-1\<close> for the empty vector.
\<close>

definition scalar_minus_vec :: "double \<Rightarrow> double list \<Rightarrow> double list" where
  "scalar_minus_vec s xs = map (\<lambda>x. s - x) xs"

definition vec_div :: "double list \<Rightarrow> double list \<Rightarrow> double list" where
  "vec_div xs ys = map2 (/) xs ys"

definition log_vec :: "double list \<Rightarrow> double list" where
  "log_vec xs = map log_double xs"

definition sum_vec :: "double list \<Rightarrow> double" where
  "sum_vec xs = foldl (+) (Fin 0) xs"

definition mean :: "double list \<Rightarrow> double" where
  "mean xs = sum_vec xs / as_double (int (length xs))"

definition var :: "double list \<Rightarrow> double" where
  "var xs =
     sum_vec (map (\<lambda>x. (x - mean xs) * (x - mean xs)) xs) / as_double (int (length xs) - 1)"

definition bayes_estimator_pixel :: "double \<Rightarrow> double list \<Rightarrow> double \<Rightarrow> double" where
  "bayes_estimator_pixel p neigh variance =
     (if isnan p then NaN
      else
        let log_neigh = log_vec (vec_div neigh (scalar_minus_vec (as_double 10000) neigh));
            x = log_double (p / (Fin 10000 - p));
            v = var log_neigh;
            w1 = v / (variance + v);
            w2 = variance / (variance + v);
            sx = w1 * x + w2 * mean log_neigh
        in sx)"

subsection \<open>\<^verbatim>\<open>bayes_estimator_class\<close>\<close>

text \<open>
  The result vector is allocated with \<^verbatim>\<open>nrows * ncols\<close> elements, a product of two
  \<^verbatim>\<open>int\<close>s. The library refuses a negative length, and the checked accessor
  \<^verbatim>\<open>result(k)\<close> refuses an index outside the vector; both are outcomes of the model.
  The two loops carry the write position \<open>k\<close> and the vector.
\<close>

datatype error = NegativeLength | IndexOutOfBounds

function bayes_estimator_class_j ::
  "double matrix \<Rightarrow> int matrix \<Rightarrow> double \<Rightarrow> nat \<Rightarrow> nat \<Rightarrow> nat \<Rightarrow> nat \<Rightarrow> double list
     \<Rightarrow> error + nat \<times> double list" where
  "bayes_estimator_class_j data window variance ncols i j k result =
     (if j < ncols then
        (let sx = bayes_estimator_pixel (cell data i j) (build_neigh data window i j) variance
         in if k < length result
            then bayes_estimator_class_j data window variance ncols i (j + 1)
                   (k + 1) (result[k := sx])
            else Inl IndexOutOfBounds)
      else Inr (k, result))"
  by pat_completeness auto
termination
  by (relation "measure (\<lambda>(data, window, variance, ncols, i, j, k, result). ncols - j)") auto

function bayes_estimator_class_i ::
  "double matrix \<Rightarrow> int matrix \<Rightarrow> double \<Rightarrow> nat \<Rightarrow> nat \<Rightarrow> nat \<Rightarrow> nat \<Rightarrow> double list
     \<Rightarrow> error + nat \<times> double list" where
  "bayes_estimator_class_i data window variance nrows ncols i k result =
     (if i < nrows then
        (case bayes_estimator_class_j data window variance ncols i 0 k result of
           Inl e \<Rightarrow> Inl e
         | Inr (k', result') \<Rightarrow>
             bayes_estimator_class_i data window variance nrows ncols (i + 1) k' result')
      else Inr (k, result))"
  by pat_completeness auto
termination
  by (relation "measure (\<lambda>(data, window, variance, nrows, ncols, i, k, result). nrows - i)") auto

definition bayes_estimator_class ::
  "double matrix \<Rightarrow> int matrix \<Rightarrow> double \<Rightarrow> error + double list" where
  "bayes_estimator_class data window variance =
     (let nrows = nrow data;
          ncols = ncol data;
          n = int32 (int nrows * int ncols)
      in if n < 0 then Inl NegativeLength
         else
           (case bayes_estimator_class_i data window variance nrows ncols 0
                   0 (replicate (nat n) (Fin 0)) of
              Inl e \<Rightarrow> Inl e
            | Inr (k, result) \<Rightarrow> Inr result))"

declare build_neigh_l.simps [simp del] build_neigh_k.simps [simp del]
declare bayes_estimator_class_j.simps [simp del] bayes_estimator_class_i.simps [simp del]

subsection \<open>The specification's description of the gatherer\<close>

text \<open>
  The raster coordinate of window position \<open>k\<close>, as the specification computes it, in
  unbounded integers: \<open>center + k - (size div 2)\<close>.
\<close>

definition spec_index :: "nat \<Rightarrow> nat \<Rightarrow> nat \<Rightarrow> int" where
  "spec_index c k n = int c + int k - int (n div 2)"

text \<open>The conditions under which window position \<open>(k, l)\<close> contributes a neighbour.\<close>

definition qualifies :: "double matrix \<Rightarrow> int matrix \<Rightarrow> nat \<Rightarrow> nat \<Rightarrow> nat \<times> nat \<Rightarrow> bool" where
  "qualifies raster window center_row center_col =
     (\<lambda>(k, l).
        let data_i = spec_index center_row k (nrow window);
            data_j = spec_index center_col l (ncol window)
        in data_i \<ge> 0 \<and> data_j \<ge> 0 \<and>
           data_i < int (nrow raster) \<and> data_j < int (ncol raster) \<and>
           cell window k l > 0 \<and>
           \<not> isnan (cell raster (nat data_i) (nat data_j)))"

text \<open>The element that position \<open>(k, l)\<close> contributes: \<open>raster(data_i, data_j) * window(k, l)\<close>.\<close>

definition weighted :: "double matrix \<Rightarrow> int matrix \<Rightarrow> nat \<Rightarrow> nat \<Rightarrow> nat \<times> nat \<Rightarrow> double" where
  "weighted raster window center_row center_col =
     (\<lambda>(k, l).
        cell raster (nat (spec_index center_row k (nrow window)))
                    (nat (spec_index center_col l (ncol window)))
          * as_double (cell window k l))"

text \<open>
  The gathered sequence of the specification: the contributions of the qualifying window
  positions, in the row-major order of the window.
\<close>

definition gather :: "double matrix \<Rightarrow> int matrix \<Rightarrow> nat \<Rightarrow> nat \<Rightarrow> double list" where
  "gather raster window center_row center_col =
     map (weighted raster window center_row center_col)
       (filter (qualifies raster window center_row center_col)
          (List.product [0..<nrow window] [0..<ncol window]))"

text \<open>The transform \<open>logit(n) = ln(n / (10000 - n))\<close>.\<close>

definition logit :: "double \<Rightarrow> double" where
  "logit n = log_double (n / (Fin 10000 - n))"

subsection \<open>Auxiliary definitions of the proofs\<close>

text \<open>The test and the pushed element of one iteration of \<^verbatim>\<open>build_neigh\<close>'s inner loop.\<close>

definition code_qualifies ::
  "double matrix \<Rightarrow> int matrix \<Rightarrow> nat \<Rightarrow> nat \<Rightarrow> nat \<Rightarrow> nat \<Rightarrow> bool" where
  "code_qualifies data window i j k l =
     (let data_i = data_index i k (nrow window); data_j = data_index j l (ncol window)
      in data_i \<ge> 0 \<and> data_j \<ge> 0 \<and>
         data_i < int (nrow data) \<and> data_j < int (ncol data) \<and> cell window k l > 0 \<and>
         \<not> isnan (cell data (nat data_i) (nat data_j)))"

definition code_weighted ::
  "double matrix \<Rightarrow> int matrix \<Rightarrow> nat \<Rightarrow> nat \<Rightarrow> nat \<Rightarrow> nat \<Rightarrow> double" where
  "code_weighted data window i j k l =
     cell data (nat (data_index i k (nrow window))) (nat (data_index j l (ncol window)))
       * as_double (cell window k l)"

text \<open>The value the pass writes for cell \<open>(i, j)\<close>, and the values of one row.\<close>

definition estimate_cell :: "double matrix \<Rightarrow> int matrix \<Rightarrow> double \<Rightarrow> nat \<Rightarrow> nat \<Rightarrow> double" where
  "estimate_cell data window variance i j =
     bayes_estimator_pixel (cell data i j) (build_neigh data window i j) variance"

definition estimate_rows ::
  "double matrix \<Rightarrow> int matrix \<Rightarrow> double \<Rightarrow> nat \<Rightarrow> nat \<Rightarrow> double list" where
  "estimate_rows data window variance ncols i =
     map (estimate_cell data window variance i) [0..<ncols]"

subsection \<open>Example inputs\<close>

text \<open>A \<open>2 \<times> 2\<close> raster of 5000s and the plus-shaped \<open>3 \<times> 3\<close> window.\<close>

definition raster_2x2 :: "double matrix" where
  "raster_2x2 = \<lparr>nrow = 2, ncol = 2, cell = (\<lambda>i j. Fin 5000)\<rparr>"

definition window_plus :: "int matrix" where
  "window_plus = \<lparr>nrow = 3, ncol = 3, cell = (\<lambda>k l. if k = 1 \<or> l = 1 then 1 else 0)\<rparr>"

text \<open>A \<open>3 \<times> 3\<close> raster of 5000s with the missing value at \<open>(1, 1)\<close>, and the all-ones window.\<close>

definition raster_3x3_hole :: "double matrix" where
  "raster_3x3_hole =
     \<lparr>nrow = 3, ncol = 3, cell = (\<lambda>i j. if i = 1 \<and> j = 1 then NaN else Fin 5000)\<rparr>"

definition window_ones :: "int matrix" where
  "window_ones = \<lparr>nrow = 3, ncol = 3, cell = (\<lambda>k l. 1)\<rparr>"

text \<open>A raster of \<open>65536 \<times> 32768 = 2\<^sup>3\<^sup>1\<close> cells.\<close>

definition raster_2pow31 :: "double matrix" where
  "raster_2pow31 = \<lparr>nrow = 65536, ncol = 32768, cell = (\<lambda>i j. Fin 5000)\<rparr>"

text \<open>A \<open>1 \<times> 2\<close> raster of 2500s, a \<open>1 \<times> 3\<close> window of ones, and a window scaled by \<open>c\<close>.\<close>

definition raster_1x2 :: "double matrix" where
  "raster_1x2 = \<lparr>nrow = 1, ncol = 2, cell = (\<lambda>i j. Fin 2500)\<rparr>"

definition window_1x3 :: "int matrix" where
  "window_1x3 = \<lparr>nrow = 1, ncol = 3, cell = (\<lambda>k l. 1)\<rparr>"

definition scale_window :: "int \<Rightarrow> int matrix \<Rightarrow> int matrix" where
  "scale_window c window = window\<lparr>cell := (\<lambda>k l. c * cell window k l)\<rparr>"

text \<open>A \<open>1 \<times> 1\<close> window holding one weight.\<close>

definition window_1x1 :: "int \<Rightarrow> int matrix" where
  "window_1x1 w = \<lparr>nrow = 1, ncol = 1, cell = (\<lambda>k l. w)\<rparr>"

section \<open>Properties of the loops\<close>

subsection \<open>Wrap-around of the index arithmetic\<close>

lemma int32_sub: "int32 (int32 x - y) = int32 (x - y)"
  unfolding int32_def by (simp add: mod_diff_left_eq algebra_simps)

lemma int32_id: "- 2147483648 \<le> x \<Longrightarrow> x < 2147483648 \<Longrightarrow> int32 x = x"
  unfolding int32_def by simp

lemma int32_high:
  assumes "2147483648 \<le> x" "x < 4294967296"
  shows "int32 x < 0"
proof -
  have "x + 2147483648 = (x - 2147483648) + 4294967296" by simp
  then have "(x + 2147483648) mod 4294967296 = (x - 2147483648) mod 4294967296"
    by (simp only: mod_add_self2)
  also have "\<dots> = x - 2147483648" using assms by simp
  finally show ?thesis using assms unfolding int32_def by simp
qed

lemma data_index_eq: 
  assumes "c \<le> int_max" "k < n" "n \<le> int_max"
  shows "data_index c k n = int32 (spec_index c k n)"
  unfolding data_index_def spec_index_def by (simp add: int32_sub zdiv_int)

lemma data_index_range:
  assumes "c \<le> int_max" "k < n" "n \<le> int_max" "m \<le> int_max"
  shows "(0 \<le> data_index c k n \<and> data_index c k n < int m) \<longleftrightarrow> (0 \<le> spec_index c k n \<and> spec_index c k n < int m)"
    and "0 \<le> spec_index c k n \<Longrightarrow> spec_index c k n < int m \<Longrightarrow> data_index c k n = spec_index c k n"
proof -
  let ?t = "spec_index c k n"
  have lo: "- 2147483648 \<le> ?t" and hi: "?t < 4294967296"
    using assms unfolding spec_index_def int_max_def by linarith+
  have eq: "data_index c k n = int32 ?t" using assms by (simp add: data_index_eq)
  show "(0 \<le> data_index c k n \<and> data_index c k n < int m) \<longleftrightarrow> (0 \<le> ?t \<and> ?t < int m)"
  proof (cases "?t < 2147483648")
    case True
    then show ?thesis using lo eq by (simp add: int32_id)
  next
    case False
    then have "int32 ?t < 0" using hi by (simp add: int32_high)
    moreover have "\<not> ?t < int m" using False assms(4) unfolding int_max_def by linarith
    ultimately show ?thesis using eq by simp
  qed
  show "0 \<le> ?t \<Longrightarrow> ?t < int m \<Longrightarrow> data_index c k n = ?t"
    using eq assms(4) unfolding int_max_def by (simp add: int32_id)
qed

lemma build_neigh_l_eq:
  "build_neigh_l data window i j k l neigh =
     neigh @ map (code_weighted data window i j k)
               (filter (code_qualifies data window i j k) [l..<ncol window])"
proof (induction data window i j k l neigh rule: build_neigh_l.induct)
  case (1 data window i j k l neigh)
  show ?case
  proof (cases "l < ncol window")
    case True
    have upt: "[l..<ncol window] = l # [l + 1..<ncol window]"
      using True by (simp add: upt_conv_Cons)
    let ?neigh = "if code_qualifies data window i j k l
                  then neigh @ [code_weighted data window i j k l] else neigh"
    have "build_neigh_l data window i j k l neigh = build_neigh_l data window i j k (l + 1) ?neigh"
      using True
      by (subst build_neigh_l.simps) (simp add: Let_def code_qualifies_def code_weighted_def)
    also have "\<dots> = ?neigh @ map (code_weighted data window i j k)
                            (filter (code_qualifies data window i j k) [l + 1..<ncol window])"
      using 1[OF True refl refl] unfolding code_qualifies_def code_weighted_def Let_def .
    also have "\<dots> = neigh @ map (code_weighted data window i j k)
                            (filter (code_qualifies data window i j k) [l..<ncol window])"
      by (simp add: upt)
    finally show ?thesis .
  next
    case False
    then show ?thesis by (subst build_neigh_l.simps) simp
  qed
qed

lemma build_neigh_k_eq:
  "build_neigh_k data window i j k neigh =
     neigh @ concat (map (\<lambda>k. map (code_weighted data window i j k)
                                 (filter (code_qualifies data window i j k) [0..<ncol window]))
                         [k..<nrow window])"
proof (induction data window i j k neigh rule: build_neigh_k.induct)
  case (1 data window i j k neigh)
  show ?case
  proof (cases "k < nrow window")
    case True
    have upt: "[k..<nrow window] = k # [k + 1..<nrow window]"
      using True by (simp add: upt_conv_Cons)
    show ?thesis
      using True 1[OF True]
      by (subst build_neigh_k.simps) (simp add: upt build_neigh_l_eq)
  next
    case False
    then show ?thesis by (subst build_neigh_k.simps) simp
  qed
qed

lemma code_qualifies_iff:
  assumes "wf_matrix data" "wf_matrix window" "i < nrow data" "j < ncol data"
    "k < nrow window" "l < ncol window"
  shows "code_qualifies data window i j k l \<longleftrightarrow> qualifies data window i j (k, l)"
proof -
  have b: "i \<le> int_max" "j \<le> int_max" "nrow window \<le> int_max" "ncol window \<le> int_max"
    "nrow data \<le> int_max" "ncol data \<le> int_max"
    using assms unfolding wf_matrix_def by simp_all
  note ri = data_index_range[OF b(1) assms(5) b(3) b(5)]
  note rj = data_index_range[OF b(2) assms(6) b(4) b(6)]
  show ?thesis
    unfolding code_qualifies_def qualifies_def Let_def prod.case
    using ri rj by metis
qed

lemma code_weighted_eq:
  assumes "wf_matrix data" "wf_matrix window" "i < nrow data" "j < ncol data"
    "k < nrow window" "l < ncol window" "qualifies data window i j (k, l)"
  shows "code_weighted data window i j k l = weighted data window i j (k, l)"
proof -
  have b: "i \<le> int_max" "j \<le> int_max" "nrow window \<le> int_max" "ncol window \<le> int_max"
    "nrow data \<le> int_max" "ncol data \<le> int_max"
    using assms unfolding wf_matrix_def by simp_all
  note ri = data_index_range(2)[OF b(1) assms(5) b(3) b(5)]
  note rj = data_index_range(2)[OF b(2) assms(6) b(4) b(6)]
  from assms(7) show ?thesis
    unfolding code_weighted_def weighted_def qualifies_def Let_def prod.case
    using ri rj by simp
qed

lemma build_neigh_gather:
  assumes "wf_matrix data" "wf_matrix window" "i < nrow data" "j < ncol data"
  shows "build_neigh data window i j = gather data window i j"
proof -
  have row: "map (code_weighted data window i j k) (filter (code_qualifies data window i j k) [0..<ncol window])
      = map (weighted data window i j) (filter (qualifies data window i j) (map (Pair k) [0..<ncol window]))"
    if "k < nrow window" for k
  proof -
    have "filter (qualifies data window i j) (map (Pair k) [0..<ncol window])
        = map (Pair k) (filter (code_qualifies data window i j k) [0..<ncol window])"
      unfolding filter_map
      by (rule arg_cong[where f = "map (Pair k)"], rule filter_cong)
         (simp_all add: code_qualifies_iff[OF assms that] comp_def)
    moreover have "map (weighted data window i j) (map (Pair k) (filter (code_qualifies data window i j k) [0..<ncol window]))
        = map (code_weighted data window i j k) (filter (code_qualifies data window i j k) [0..<ncol window])"
      unfolding map_map
      by (rule map_cong) (simp_all add: code_weighted_eq[OF assms that] code_qualifies_iff[OF assms that, symmetric])
    ultimately show ?thesis by simp
  qed
  have "build_neigh data window i j
      = concat (map (\<lambda>k. map (weighted data window i j)
            (filter (qualifies data window i j) (map (Pair k) [0..<ncol window]))) [0..<nrow window])"
    unfolding build_neigh_def build_neigh_k_eq append_Nil
    by (rule arg_cong[where f = concat], rule map_cong) (simp_all add: row)
  also have "\<dots> = gather data window i j"
    unfolding gather_def List.product_concat_map
    by (simp add: filter_concat map_concat comp_def)
  finally show ?thesis .
qed

subsection \<open>The loops of the pass\<close>

lemma class_j_ok:
  "k + (ncols - j) \<le> length result \<Longrightarrow>
   bayes_estimator_class_j data window variance ncols i j k result =
     Inr (k + (ncols - j),
          take k result @ map (estimate_cell data window variance i) [j..<ncols]
            @ drop (k + (ncols - j)) result)"
proof (induction data window variance ncols i j k result
       rule: bayes_estimator_class_j.induct)
  case (1 data window variance ncols i j k result)
  show ?case
  proof (cases "j < ncols")
    case True
    let ?sx = "estimate_cell data window variance i j"
    have k: "k < length result" using True 1(2) by simp
    have "bayes_estimator_class_j data window variance ncols i j k result
        = bayes_estimator_class_j data window variance ncols i (j + 1) (k + 1) (result[k := ?sx])"
      using True k by (subst bayes_estimator_class_j.simps) (simp add: estimate_cell_def)
    also have "\<dots> = Inr (k + 1 + (ncols - (j + 1)),
          take (k + 1) (result[k := ?sx]) @ map (estimate_cell data window variance i) [j + 1..<ncols]
            @ drop (k + 1 + (ncols - (j + 1))) (result[k := ?sx]))"
      using 1(1)[OF True refl k] 1(2) True
      by (simp add: estimate_cell_def)
    also have "\<dots> = Inr (k + (ncols - j),
          take k result @ map (estimate_cell data window variance i) [j..<ncols]
            @ drop (k + (ncols - j)) result)"
      using True k by (simp add: upt_conv_Cons take_Suc_conv_app_nth Suc_diff_Suc)
    finally show ?thesis .
  next
    case False
    then show ?thesis by (subst bayes_estimator_class_j.simps) simp
  qed
qed

lemma class_j_fail:
  "k \<le> length result \<Longrightarrow> length result < k + (ncols - j) \<Longrightarrow>
   bayes_estimator_class_j data window variance ncols i j k result = Inl IndexOutOfBounds"
proof (induction data window variance ncols i j k result
       rule: bayes_estimator_class_j.induct)
  case (1 data window variance ncols i j k result)
  have j: "j < ncols" using 1(2,3) by simp
  show ?case
  proof (cases "k < length result")
    case True
    let ?sx = "bayes_estimator_pixel (cell data i j) (build_neigh data window i j) variance"
    have "bayes_estimator_class_j data window variance ncols i (j + 1) (k + 1) (result[k := ?sx])
        = Inl IndexOutOfBounds"
      using 1(1)[OF j refl True] True 1(3) j by simp
    then show ?thesis
      using j True by (subst bayes_estimator_class_j.simps) simp
  next
    case False
    then show ?thesis using j by (subst bayes_estimator_class_j.simps) simp
  qed
qed

lemma class_i_ok:
  "k + (nrows - i) * ncols \<le> length result \<Longrightarrow>
   bayes_estimator_class_i data window variance nrows ncols i k result =
     Inr (k + (nrows - i) * ncols,
          take k result @ concat (map (estimate_rows data window variance ncols) [i..<nrows])
            @ drop (k + (nrows - i) * ncols) result)"
proof (induction data window variance nrows ncols i k result
       rule: bayes_estimator_class_i.induct)
  case (1 data window variance nrows ncols i k result)
  show ?case
  proof (cases "i < nrows")
    case True
    let ?row = "estimate_rows data window variance ncols i"
    let ?r = "take k result @ ?row @ drop (k + ncols) result"
    have split: "(nrows - i) * ncols = ncols + (nrows - (i + 1)) * ncols"
    proof -
      have "nrows - i = Suc (nrows - (i + 1))" using True by simp
      then show ?thesis by simp
    qed
    have fit: "k + ncols \<le> length result" using 1(2) split by simp
    have inner: "bayes_estimator_class_j data window variance ncols i 0 k result = Inr (k + ncols, ?r)"
      using class_j_ok[of k ncols 0 result data window variance i] fit
      by (simp add: estimate_rows_def)
    have len: "length ?r = length result" using fit by (simp add: estimate_rows_def)
    have "bayes_estimator_class_i data window variance nrows ncols i k result
        = bayes_estimator_class_i data window variance nrows ncols (i + 1) (k + ncols) ?r"
      using True inner by (subst bayes_estimator_class_i.simps) simp
    also have "\<dots> = Inr (k + ncols + (nrows - (i + 1)) * ncols,
          take (k + ncols) ?r @ concat (map (estimate_rows data window variance ncols) [i + 1..<nrows])
            @ drop (k + ncols + (nrows - (i + 1)) * ncols) ?r)"
      using 1(1)[OF True inner refl] 1(2) split len by simp
    also have "take (k + ncols) ?r = take k result @ ?row"
      using fit by (simp add: estimate_rows_def)
    also have "drop (k + ncols + (nrows - (i + 1)) * ncols) ?r
        = drop (k + (nrows - i) * ncols) result"
      using fit split by (simp add: estimate_rows_def ac_simps)
    finally show ?thesis
      using True split by (simp add: upt_conv_Cons add.assoc)
  next
    case False
    then show ?thesis by (subst bayes_estimator_class_i.simps) simp
  qed
qed

lemma class_i_fail:
  "k \<le> length result \<Longrightarrow> length result < k + (nrows - i) * ncols \<Longrightarrow>
   bayes_estimator_class_i data window variance nrows ncols i k result = Inl IndexOutOfBounds"
proof (induction data window variance nrows ncols i k result
       rule: bayes_estimator_class_i.induct)
  case (1 data window variance nrows ncols i k result)
  have i: "i < nrows" using 1(2,3) by (cases "i < nrows") simp_all
  have split: "(nrows - i) * ncols = ncols + (nrows - (i + 1)) * ncols"
  proof -
    have "nrows - i = Suc (nrows - (i + 1))" using i by simp
    then show ?thesis by simp
  qed
  show ?case
  proof (cases "k + ncols \<le> length result")
    case True
    let ?r = "take k result @ estimate_rows data window variance ncols i @ drop (k + ncols) result"
    have inner: "bayes_estimator_class_j data window variance ncols i 0 k result = Inr (k + ncols, ?r)"
      using class_j_ok[of k ncols 0 result data window variance i] True
      by (simp add: estimate_rows_def)
    have len: "length ?r = length result" using True by (simp add: estimate_rows_def)
    have "bayes_estimator_class_i data window variance nrows ncols (i + 1) (k + ncols) ?r
        = Inl IndexOutOfBounds"
      using 1(1)[OF i inner refl] True 1(3) split len by simp
    then show ?thesis
      using i inner by (subst bayes_estimator_class_i.simps) simp
  next
    case False
    then have "bayes_estimator_class_j data window variance ncols i 0 k result = Inl IndexOutOfBounds"
      using class_j_fail[of k result ncols 0] 1(2) by simp
    then show ?thesis
      using i by (subst bayes_estimator_class_i.simps) simp
  qed
qed

lemma int32_le: "int32 x \<le> 2147483647"
proof -
  have "(x + 2147483648) mod 4294967296 < 4294967296" by simp
  then show ?thesis unfolding int32_def by linarith
qed

lemma bayes_estimator_class_eq:
  "bayes_estimator_class data window variance =
     (if nrow data * ncol data \<le> int_max
      then Inr (concat (map (estimate_rows data window variance (ncol data)) [0..<nrow data]))
      else Inl (if int32 (int (nrow data) * int (ncol data)) < 0
                then NegativeLength else IndexOutOfBounds))"
proof (cases "nrow data * ncol data \<le> int_max")
  case True
  then have "int (nrow data * ncol data) < 2147483648"
    unfolding int_max_def by linarith
  then have "int (nrow data) * int (ncol data) < 2147483648"
    by (simp only: of_nat_mult)
  moreover have "- 2147483648 \<le> int (nrow data) * int (ncol data)"
    by (rule order_trans[of _ 0]) simp_all
  ultimately have n: "int32 (int (nrow data) * int (ncol data)) = int (nrow data * ncol data)"
    by (simp add: int32_id)
  show ?thesis
    using True class_i_ok[of 0 "nrow data" 0 "ncol data" "replicate (nrow data * ncol data) (Fin 0)"
                              data window variance]
    by (simp add: bayes_estimator_class_def n del: of_nat_mult)
next
  case False
  let ?n = "int32 (int (nrow data) * int (ncol data))"
  show ?thesis
  proof (cases "?n < 0")
    case True
    then show ?thesis using False by (simp add: bayes_estimator_class_def)
  next
    case nonneg: False
    have "nat ?n < nrow data * ncol data"
      using False int32_le[of "int (nrow data) * int (ncol data)"] unfolding int_max_def by linarith
    then have "bayes_estimator_class_i data window variance (nrow data) (ncol data) 0 0
                 (replicate (nat ?n) (Fin 0)) = Inl IndexOutOfBounds"
      using class_i_fail[of 0 "replicate (nat ?n) (Fin 0)" "nrow data" 0 "ncol data"] by simp
    then show ?thesis using False nonneg by (simp add: bayes_estimator_class_def)
  qed
qed

lemma concat_rows_length:
  "(\<And>i. i < r \<Longrightarrow> length (f i) = c) \<Longrightarrow> length (concat (map f [0..<r])) = r * c"
  by (induction r) simp_all

lemma concat_rows_nth:
  "(\<And>i. i < r \<Longrightarrow> length (f i) = c) \<Longrightarrow> i < r \<Longrightarrow> j < c \<Longrightarrow>
   concat (map f [0..<r]) ! (i * c + j) = f i ! j"
proof (induction r)
  case 0
  then show ?case by simp
next
  case (Suc r)
  have len: "length (concat (map f [0..<r])) = r * c"
    using Suc.prems(1) by (simp add: concat_rows_length)
  show ?case
  proof (cases "i < r")
    case True
    have "i * c + j < Suc i * c" using Suc.prems(3) by simp
    also have "\<dots> \<le> r * c" using True by (simp only: mult_le_mono1 Suc_leI)
    finally have "i * c + j < r * c" .
    then show ?thesis using Suc True by (simp add: nth_append len)
  next
    case False
    then have "i = r" using Suc.prems(2) by simp
    then show ?thesis by (simp add: nth_append len)
  qed
qed

lemma class_out_length:
  "length (concat (map (estimate_rows data window variance (ncol data)) [0..<nrow data]))
     = nrow data * ncol data"
  by (rule concat_rows_length) (simp add: estimate_rows_def)

lemma class_out_nth:
  "i < nrow data \<Longrightarrow> j < ncol data \<Longrightarrow>
   concat (map (estimate_rows data window variance (ncol data)) [0..<nrow data]) ! (i * ncol data + j)
     = estimate_cell data window variance i j"
proof -
  assume i: "i < nrow data" and j: "j < ncol data"
  have "concat (map (estimate_rows data window variance (ncol data)) [0..<nrow data]) ! (i * ncol data + j)
      = estimate_rows data window variance (ncol data) i ! j"
    using i j by (intro concat_rows_nth) (simp_all add: estimate_rows_def)
  then show ?thesis using j by (simp add: estimate_rows_def)
qed

lemma class_Inr_iff:
  "bayes_estimator_class data window variance = Inr out \<longleftrightarrow>
     nrow data * ncol data \<le> int_max \<and>
     out = concat (map (estimate_rows data window variance (ncol data)) [0..<nrow data])"
  by (auto simp: bayes_estimator_class_eq)

lemma class_Inr_nth:
  "bayes_estimator_class data window variance = Inr out \<Longrightarrow> i < nrow data \<Longrightarrow> j < ncol data \<Longrightarrow>
   out ! (i * ncol data + j)
     = bayes_estimator_pixel (cell data i j) (build_neigh data window i j) variance"
  by (simp add: class_Inr_iff class_out_nth estimate_cell_def)

subsection \<open>The estimator on missing and degenerate inputs\<close>

lemma nan_absorbs [simp]:
  "x + NaN = NaN" "NaN + x = NaN" "x * NaN = NaN" "NaN * x = NaN"
  "x / NaN = NaN" "NaN / x = NaN" "x - NaN = NaN" "NaN - x = NaN"
  by (cases x; simp add: minus_double_def)+

lemma log_neigh_eq:
  "log_vec (vec_div neigh (scalar_minus_vec (as_double 10000) neigh)) = map logit neigh"
  by (simp add: log_vec_def vec_div_def scalar_minus_vec_def logit_def as_double_def
      zip_map2 zip_same_conv_map comp_def)

lemma pixel_nan: "isnan p \<Longrightarrow> bayes_estimator_pixel p neigh variance = NaN"
  by (simp add: bayes_estimator_pixel_def)

lemma mean_Nil: "mean [] = NaN"
  by (simp add: mean_def sum_vec_def as_double_def signed_inf_def)

lemma var_singleton: "var [y] = NaN"
  by (cases y) (simp_all add: var_def mean_def sum_vec_def as_double_def signed_inf_def
      minus_double_def)

lemma pixel_degenerate:
  assumes "\<not> isnan p" "length neigh \<le> 1"
  shows "bayes_estimator_pixel p neigh variance = NaN"
proof (cases neigh)
  case Nil
  then show ?thesis
    using assms(1) by (simp add: bayes_estimator_pixel_def log_neigh_eq mean_Nil Let_def)
next
  case (Cons a as)
  then have "neigh = [a]" using assms(2) by simp
  then show ?thesis
    using assms(1) by (simp add: bayes_estimator_pixel_def log_neigh_eq var_singleton Let_def)
qed

subsection \<open>The example inputs\<close>

lemma wf_examples:
  "wf_matrix raster_2x2" "wf_matrix window_plus" "wf_matrix raster_3x3_hole"
  "wf_matrix window_ones" "wf_matrix raster_1x2" "wf_matrix window_1x3"
  "wf_matrix (window_1x1 w)" "wf_matrix (scale_window c window) = wf_matrix window"
  by (simp_all add: wf_matrix_def int_max_def raster_2x2_def window_plus_def
      raster_3x3_hole_def window_ones_def raster_1x2_def window_1x3_def window_1x1_def
      scale_window_def)

lemma upt_3: "[0..<3] = [0, 1, 2]"
  by (simp add: upt_rec)

lemma upt_2: "[0..<2] = [0, 1]"
  by (simp add: upt_rec)

lemmas gather_simps = gather_def qualifies_def weighted_def spec_index_def as_double_def

lemmas pixel_simps = bayes_estimator_pixel_def log_vec_def vec_div_def scalar_minus_vec_def
  var_def mean_def sum_vec_def as_double_def minus_double_def Let_def

text \<open>The neighbour lists of the nine cells of the raster with the missing centre.\<close>

lemma neigh_hole:
  "build_neigh raster_3x3_hole window_ones 0 0 = [Fin 5000, Fin 5000, Fin 5000]"
  "build_neigh raster_3x3_hole window_ones 0 1 = [Fin 5000, Fin 5000, Fin 5000, Fin 5000, Fin 5000]"
  "build_neigh raster_3x3_hole window_ones 0 2 = [Fin 5000, Fin 5000, Fin 5000]"
  "build_neigh raster_3x3_hole window_ones 1 0 = [Fin 5000, Fin 5000, Fin 5000, Fin 5000, Fin 5000]"
  "build_neigh raster_3x3_hole window_ones 1 1
     = [Fin 5000, Fin 5000, Fin 5000, Fin 5000, Fin 5000, Fin 5000, Fin 5000, Fin 5000]"
  "build_neigh raster_3x3_hole window_ones 1 2 = [Fin 5000, Fin 5000, Fin 5000, Fin 5000, Fin 5000]"
  "build_neigh raster_3x3_hole window_ones 2 0 = [Fin 5000, Fin 5000, Fin 5000]"
  "build_neigh raster_3x3_hole window_ones 2 1 = [Fin 5000, Fin 5000, Fin 5000, Fin 5000, Fin 5000]"
  "build_neigh raster_3x3_hole window_ones 2 2 = [Fin 5000, Fin 5000, Fin 5000]"
proof -
  have g: "build_neigh raster_3x3_hole window_ones i j = gather raster_3x3_hole window_ones i j"
    if "i < 3" "j < 3" for i j
    using that by (intro build_neigh_gather wf_examples) (simp_all add: raster_3x3_hole_def)
  note ev = gather_simps raster_3x3_hole_def window_ones_def upt_3
  show "build_neigh raster_3x3_hole window_ones 0 0 = [Fin 5000, Fin 5000, Fin 5000]"
    by (simp add: g) (simp add: ev)
  show "build_neigh raster_3x3_hole window_ones 0 1
      = [Fin 5000, Fin 5000, Fin 5000, Fin 5000, Fin 5000]"
    by (simp add: g) (simp add: ev)
  show "build_neigh raster_3x3_hole window_ones 0 2 = [Fin 5000, Fin 5000, Fin 5000]"
    by (simp add: g) (simp add: ev)
  show "build_neigh raster_3x3_hole window_ones 1 0
      = [Fin 5000, Fin 5000, Fin 5000, Fin 5000, Fin 5000]"
    by (simp add: g) (simp add: ev)
  show "build_neigh raster_3x3_hole window_ones 1 1
      = [Fin 5000, Fin 5000, Fin 5000, Fin 5000, Fin 5000, Fin 5000, Fin 5000, Fin 5000]"
    by (simp add: g) (simp add: ev)
  show "build_neigh raster_3x3_hole window_ones 1 2
      = [Fin 5000, Fin 5000, Fin 5000, Fin 5000, Fin 5000]"
    by (simp add: g) (simp add: ev)
  show "build_neigh raster_3x3_hole window_ones 2 0 = [Fin 5000, Fin 5000, Fin 5000]"
    by (simp add: g) (simp add: ev)
  show "build_neigh raster_3x3_hole window_ones 2 1
      = [Fin 5000, Fin 5000, Fin 5000, Fin 5000, Fin 5000]"
    by (simp add: g) (simp add: ev)
  show "build_neigh raster_3x3_hole window_ones 2 2 = [Fin 5000, Fin 5000, Fin 5000]"
    by (simp add: g) (simp add: ev)
qed

lemma cells_hole:
  "cell raster_3x3_hole 1 1 = NaN"
  "cell raster_3x3_hole 0 j = Fin 5000"
  "cell raster_3x3_hole 2 j = Fin 5000"
  "cell raster_3x3_hole i 0 = Fin 5000"
  "cell raster_3x3_hole i 2 = Fin 5000"
  by (simp_all add: raster_3x3_hole_def)

lemmas hole_simps = neigh_hole cells_hole neigh_hole(2,4,5,6,8)[unfolded One_nat_def]
  cells_hole(1)[unfolded One_nat_def]

lemma pixel_5000_3:
  "0 < r \<Longrightarrow> bayes_estimator_pixel (Fin 5000) [Fin 5000, Fin 5000, Fin 5000] (Fin r) = Fin 0"
  by (simp add: pixel_simps)

lemma pixel_5000_5:
  "0 < r \<Longrightarrow>
   bayes_estimator_pixel (Fin 5000) [Fin 5000, Fin 5000, Fin 5000, Fin 5000, Fin 5000] (Fin r)
     = Fin 0"
  by (simp add: pixel_simps)

lemma class_hole:
  assumes "0 < r"
  shows "bayes_estimator_class raster_3x3_hole window_ones (Fin r)
       = Inr [Fin 0, Fin 0, Fin 0, Fin 0, NaN, Fin 0, Fin 0, Fin 0, Fin 0]"
proof -
  have dims: "nrow raster_3x3_hole = 3" "ncol raster_3x3_hole = 3"
    by (simp_all add: raster_3x3_hole_def)
  have row0: "estimate_rows raster_3x3_hole window_ones (Fin r) 3 0 = [Fin 0, Fin 0, Fin 0]"
    using assms
    by (simp add: estimate_rows_def estimate_cell_def upt_3 hole_simps
        pixel_5000_3 pixel_5000_5)
  have row1: "estimate_rows raster_3x3_hole window_ones (Fin r) 3 1 = [Fin 0, NaN, Fin 0]"
    using assms
    by (simp add: estimate_rows_def estimate_cell_def upt_3 hole_simps
        pixel_5000_3 pixel_5000_5 pixel_nan)
  have row2: "estimate_rows raster_3x3_hole window_ones (Fin r) 3 2 = [Fin 0, Fin 0, Fin 0]"
    using assms
    by (simp add: estimate_rows_def estimate_cell_def upt_3 hole_simps
        pixel_5000_3 pixel_5000_5)
  show ?thesis
    by (simp add: class_Inr_iff dims upt_3 row0 row1[unfolded One_nat_def] row2 int_max_def)
qed

text \<open>The \<open>1 \<times> 2\<close> raster under the \<open>1 \<times> 3\<close> window and under the window scaled by 2.\<close>

lemma neigh_1x2:
  "build_neigh raster_1x2 window_1x3 0 0 = [Fin 2500, Fin 2500]"
  "build_neigh raster_1x2 window_1x3 0 1 = [Fin 2500, Fin 2500]"
  "build_neigh raster_1x2 (scale_window 2 window_1x3) 0 0 = [Fin 5000, Fin 5000]"
  "build_neigh raster_1x2 (scale_window 2 window_1x3) 0 1 = [Fin 5000, Fin 5000]"
proof -
  have g: "build_neigh raster_1x2 w 0 j = gather raster_1x2 w 0 j"
    if "j < 2" "wf_matrix w" for j w
    using that by (intro build_neigh_gather wf_examples) (simp_all add: raster_1x2_def)
  have w: "wf_matrix (scale_window 2 window_1x3)"
    by (simp add: wf_examples)
  note ev = gather_simps raster_1x2_def window_1x3_def scale_window_def upt_3
  show "build_neigh raster_1x2 window_1x3 0 0 = [Fin 2500, Fin 2500]"
    by (simp add: g wf_examples) (simp add: ev)
  show "build_neigh raster_1x2 window_1x3 0 1 = [Fin 2500, Fin 2500]"
    by (simp add: g wf_examples) (simp add: ev)
  show "build_neigh raster_1x2 (scale_window 2 window_1x3) 0 0 = [Fin 5000, Fin 5000]"
    by (simp add: g w) (simp add: ev)
  show "build_neigh raster_1x2 (scale_window 2 window_1x3) 0 1 = [Fin 5000, Fin 5000]"
    by (simp add: g w) (simp add: ev)
qed

lemma pixel_2500:
  "bayes_estimator_pixel (Fin 2500) [Fin 2500, Fin 2500] (Fin (1 / 10)) = Fin (ln (1 / 3))"
  "bayes_estimator_pixel (Fin 2500) [Fin 5000, Fin 5000] (Fin (1 / 10)) = Fin 0"
  by (simp_all add: pixel_simps)

lemma class_1x2:
  "bayes_estimator_class raster_1x2 window_1x3 (Fin (1 / 10))
     = Inr [Fin (ln (1 / 3)), Fin (ln (1 / 3))]"
  "bayes_estimator_class raster_1x2 (scale_window 2 window_1x3) (Fin (1 / 10))
     = Inr [Fin 0, Fin 0]"
proof -
  have dims: "nrow raster_1x2 = 1" "ncol raster_1x2 = 2" "cell raster_1x2 i j = Fin 2500" for i j
    by (simp_all add: raster_1x2_def)
  note n = neigh_1x2 neigh_1x2(2,4)[unfolded One_nat_def]
  show "bayes_estimator_class raster_1x2 window_1x3 (Fin (1 / 10))
     = Inr [Fin (ln (1 / 3)), Fin (ln (1 / 3))]"
    by (simp add: class_Inr_iff dims int_max_def estimate_rows_def estimate_cell_def upt_2
        n pixel_2500)
  show "bayes_estimator_class raster_1x2 (scale_window 2 window_1x3) (Fin (1 / 10))
     = Inr [Fin 0, Fin 0]"
    by (simp add: class_Inr_iff dims int_max_def estimate_rows_def estimate_cell_def upt_2
        n pixel_2500)
qed

text \<open>The \<open>2 \<times> 2\<close> raster under a window of one weight.\<close>

lemma class_1x1:
  "bayes_estimator_class raster_2x2 (window_1x1 1) (Fin 1) = Inr [NaN, NaN, NaN, NaN]"
  "build_neigh raster_2x2 (window_1x1 1) 0 0 = [Fin 5000]"
proof -
  have g: "build_neigh raster_2x2 (window_1x1 w) i j = gather raster_2x2 (window_1x1 w) i j"
    if "i < 2" "j < 2" for i j w
    using that by (intro build_neigh_gather wf_examples) (simp_all add: raster_2x2_def)
  have n: "build_neigh raster_2x2 (window_1x1 1) i j = [Fin 5000]" if "i < 2" "j < 2" for i j
    using that by (simp add: g) (simp add: gather_simps raster_2x2_def window_1x1_def)
  have dims: "nrow raster_2x2 = 2" "ncol raster_2x2 = 2" "cell raster_2x2 i j = Fin 5000" for i j
    by (simp_all add: raster_2x2_def)
  show "bayes_estimator_class raster_2x2 (window_1x1 1) (Fin 1) = Inr [NaN, NaN, NaN, NaN]"
    by (simp add: class_Inr_iff dims int_max_def estimate_rows_def estimate_cell_def upt_2
        n pixel_degenerate)
  show "build_neigh raster_2x2 (window_1x1 1) 0 0 = [Fin 5000]"
    by (simp add: n)
qed

text \<open>
  The scenario of the \<open>2 \<times> 2\<close> raster of 5000s under the plus-shaped window with variance
  \<open>0.1\<close>: every cell gathers three neighbours, every transform is \<open>ln 1 = 0\<close>, and the output
  is zero at all four cells.
\<close>

lemma plus_window_scenario_all_zero:
  "bayes_estimator_class raster_2x2 window_plus (Fin (1 / 10))
     = Inr [Fin 0, Fin 0, Fin 0, Fin 0]"
proof -
  have g: "build_neigh raster_2x2 window_plus i j = gather raster_2x2 window_plus i j"
    if "i < 2" "j < 2" for i j
    using that by (intro build_neigh_gather wf_examples) (simp_all add: raster_2x2_def)
  have two: "i = 0 \<or> i = 1" if "i < 2" for i :: nat
    using that by linarith
  have n: "build_neigh raster_2x2 window_plus i j = [Fin 5000, Fin 5000, Fin 5000]"
    if "i < 2" "j < 2" for i j
    using two[OF that(1)] two[OF that(2)]
    by (simp add: g that) (auto simp add: gather_simps raster_2x2_def window_plus_def upt_3)
  have dims: "nrow raster_2x2 = 2" "ncol raster_2x2 = 2" "cell raster_2x2 i j = Fin 5000" for i j
    by (simp_all add: raster_2x2_def)
  show ?thesis
    by (simp add: class_Inr_iff dims int_max_def estimate_rows_def estimate_cell_def upt_2
        n pixel_5000_3)
qed

section \<open>The gatherer\<close>

text \<open>
  Claim C2. For a raster and a window whose dimensions are \<^verbatim>\<open>int\<close>s and a target cell of
  the raster, the sequence \<^verbatim>\<open>build_neigh\<close> returns is the specification's: it holds
  \<open>raster(data_i, data_j) * window(k, l)\<close> for exactly the window positions \<open>(k, l)\<close>, taken
  in row-major order, whose \<open>data_i = center_row + k - (wrows div 2)\<close> and
  \<open>data_j = center_col + l - (wcols div 2)\<close> are not negative and below \<open>nrow\<close> and
  \<open>ncol\<close>, whose weight is positive and whose raster value is not the missing value. The
  32-bit index arithmetic of the code agrees with the unbounded one of the specification
  on every such input. In particular a position whose weight is zero or negative never
  qualifies, whatever the raster holds there.
\<close>

theorem build_neigh_selects_exactly:
  assumes "wf_matrix raster" "wf_matrix window"
    and "center_row < nrow raster" "center_col < ncol raster"
  shows "build_neigh raster window center_row center_col
           = gather raster window center_row center_col \<and>
         (\<forall>k l. cell window k l \<le> 0 \<longrightarrow> \<not> qualifies raster window center_row center_col (k, l))"
  using build_neigh_gather[OF assms] by (simp add: qualifies_def Let_def)

theorem build_neigh_selects_exactly_witness:
  "wf_matrix raster_2x2 \<and> wf_matrix window_plus \<and> 0 < nrow raster_2x2 \<and> 0 < ncol raster_2x2 \<and>
   build_neigh raster_2x2 window_plus 0 0 = [Fin 5000, Fin 5000, Fin 5000] \<and>
   gather raster_2x2 window_plus 0 0 = [Fin 5000, Fin 5000, Fin 5000] \<and>
   cell window_plus 0 0 \<le> 0 \<and> \<not> qualifies raster_2x2 window_plus 0 0 (0, 0)"
proof -
  have g: "gather raster_2x2 window_plus 0 0 = [Fin 5000, Fin 5000, Fin 5000]"
    by (simp add: gather_def qualifies_def weighted_def spec_index_def as_double_def
        raster_2x2_def window_plus_def upt_3)
  have h: "0 < nrow raster_2x2" "0 < ncol raster_2x2"
    by (simp_all add: raster_2x2_def)
  have w: "cell window_plus 0 0 \<le> 0"
    by (simp add: window_plus_def)
  show ?thesis
    using build_neigh_selects_exactly[OF wf_examples(1) wf_examples(2) h] g h w
    by (simp add: wf_examples)
qed

text \<open>
  Claim C10. A cell is its own neighbour: for a window of odd dimensions whose centre
  weight \<open>window(wrows div 2, wcols div 2)\<close> is positive and a cell \<open>(i, j)\<close> of the raster
  whose value is not the missing value, the gathered list of \<open>(i, j)\<close> contains
  \<open>raster(i, j) * window(wrows div 2, wcols div 2)\<close>.
\<close>

theorem cell_is_own_neighbour:
  assumes "wf_matrix raster" "wf_matrix window"
    and "odd (nrow window)" "odd (ncol window)"
    and "cell window (nrow window div 2) (ncol window div 2) > 0"
    and "i < nrow raster" "j < ncol raster" "\<not> isnan (cell raster i j)"
  shows "cell raster i j * as_double (cell window (nrow window div 2) (ncol window div 2))
           \<in> set (build_neigh raster window i j)"
proof -
  let ?k = "nrow window div 2" and ?l = "ncol window div 2"
  have pos: "(?k, ?l) \<in> set (List.product [0..<nrow window] [0..<ncol window])"
    using assms(3,4) by (auto elim!: oddE)
  have idx: "spec_index i ?k (nrow window) = int i" "spec_index j ?l (ncol window) = int j"
    by (simp_all add: spec_index_def)
  have q: "qualifies raster window i j (?k, ?l)"
    using assms(5-8) by (simp add: qualifies_def idx)
  have w: "weighted raster window i j (?k, ?l) = cell raster i j * as_double (cell window ?k ?l)"
    by (simp add: weighted_def idx)
  have "weighted raster window i j (?k, ?l) \<in> set (gather raster window i j)"
    unfolding gather_def using pos q by (simp only: set_map set_filter) blast
  then show ?thesis
    using w build_neigh_gather[OF assms(1,2,6,7)] by simp
qed

theorem cell_is_own_neighbour_witness:
  "wf_matrix raster_3x3_hole \<and> wf_matrix window_ones \<and>
   odd (nrow window_ones) \<and> odd (ncol window_ones) \<and>
   cell window_ones (nrow window_ones div 2) (ncol window_ones div 2) > 0 \<and>
   0 < nrow raster_3x3_hole \<and> 0 < ncol raster_3x3_hole \<and>
   \<not> isnan (cell raster_3x3_hole 0 0) \<and>
   Fin 5000 \<in> set (build_neigh raster_3x3_hole window_ones 0 0)"
proof -
  have h: "odd (nrow window_ones)" "odd (ncol window_ones)"
    "cell window_ones (nrow window_ones div 2) (ncol window_ones div 2) > 0"
    "0 < nrow raster_3x3_hole" "0 < ncol raster_3x3_hole"
    "\<not> isnan (cell raster_3x3_hole 0 0)"
    by (simp_all add: window_ones_def raster_3x3_hole_def)
  have "Fin 5000 \<in> set (build_neigh raster_3x3_hole window_ones 0 0)"
    using cell_is_own_neighbour[OF wf_examples(3) wf_examples(4) h]
    by (simp add: window_ones_def raster_3x3_hole_def as_double_def)
  then show ?thesis
    using h wf_examples(3) wf_examples(4) by simp
qed

section \<open>The raster pass\<close>

text \<open>
  Claim C5, amended. For every raster whose number of cells \<open>nrow * ncol\<close> is at most
  \<open>2\<^sup>3\<^sup>1 - 1\<close>, the pass returns a flat sequence of length exactly \<open>nrow * ncol\<close> in
  row-major order: the element at index \<open>i * ncol + j\<close> is the estimate of the value of
  cell \<open>(i, j)\<close>, its gathered neighbours and the variance, for every cell \<open>(i, j)\<close>.
\<close>

theorem raster_pass_row_major:
  assumes "nrow raster * ncol raster \<le> int_max"
  shows "\<exists>out. bayes_estimator_class raster window variance = Inr out \<and>
           length out = nrow raster * ncol raster \<and>
           (\<forall>i<nrow raster. \<forall>j<ncol raster.
              out ! (i * ncol raster + j)
                = bayes_estimator_pixel (cell raster i j) (build_neigh raster window i j) variance)"
proof -
  let ?out = "concat (map (estimate_rows raster window variance (ncol raster)) [0..<nrow raster])"
  have "bayes_estimator_class raster window variance = Inr ?out"
    using assms by (simp add: class_Inr_iff)
  moreover have "length ?out = nrow raster * ncol raster"
    by (rule class_out_length)
  moreover have "\<forall>i<nrow raster. \<forall>j<ncol raster. ?out ! (i * ncol raster + j)
      = bayes_estimator_pixel (cell raster i j) (build_neigh raster window i j) variance"
    by (simp add: class_out_nth estimate_cell_def)
  ultimately show ?thesis by blast
qed

theorem raster_pass_row_major_witness:
  "nrow raster_2x2 * ncol raster_2x2 \<le> int_max \<and>
   (\<exists>out. bayes_estimator_class raster_2x2 window_plus (Fin (1 / 10)) = Inr out \<and>
      length out = 4 \<and>
      out ! 3 = bayes_estimator_pixel (cell raster_2x2 1 1)
                  (build_neigh raster_2x2 window_plus 1 1) (Fin (1 / 10)))"
proof -
  have h: "nrow raster_2x2 * ncol raster_2x2 \<le> int_max"
    by (simp add: raster_2x2_def int_max_def)
  obtain out where out: "bayes_estimator_class raster_2x2 window_plus (Fin (1 / 10)) = Inr out"
    "length out = nrow raster_2x2 * ncol raster_2x2"
    "\<forall>i<nrow raster_2x2. \<forall>j<ncol raster_2x2. out ! (i * ncol raster_2x2 + j)
       = bayes_estimator_pixel (cell raster_2x2 i j) (build_neigh raster_2x2 window_plus i j)
           (Fin (1 / 10))"
    using raster_pass_row_major[OF h] by blast
  have "1 < nrow raster_2x2" "1 < ncol raster_2x2" "1 * ncol raster_2x2 + 1 = 3"
    "nrow raster_2x2 * ncol raster_2x2 = 4"
    by (simp_all add: raster_2x2_def)
  then have "length out = 4" "out ! 3 = bayes_estimator_pixel (cell raster_2x2 1 1)
      (build_neigh raster_2x2 window_plus 1 1) (Fin (1 / 10))"
    using out(2,3) by (simp, metis)
  then show ?thesis using h out(1) by blast
qed

text \<open>
  The claim as stated fails for a raster of \<open>65536 \<times> 32768\<close> cells: the product of the
  two dimensions is \<open>2\<^sup>3\<^sup>1\<close>, which wraps to a negative \<^verbatim>\<open>int\<close>, and no sequence is
  returned.
\<close>

theorem raster_pass_overflow_counterexample:
  "bayes_estimator_class raster_2pow31 window_ones (Fin 1) = Inl NegativeLength"
  by (simp add: bayes_estimator_class_eq raster_2pow31_def int_max_def int32_def)

section \<open>The pixel estimator\<close>

text \<open>
  Claim C1. For a centre value that is not the missing value and a neighbour list of at
  least two elements, the estimate is \<open>w1 * x + w2 * mean(L)\<close>, where \<open>L\<close> is the list of the
  transforms \<open>ln(n / (10000 - n))\<close> of the neighbours, \<open>x\<close> the transform of the centre value,
  \<open>v\<close> the sum of the squared deviations of \<open>L\<close> from its mean divided by the count minus
  one, \<open>w1 = v / (variance + v)\<close> and \<open>w2 = variance / (variance + v)\<close>.
\<close>

theorem estimator_blend_formula:
  assumes "\<not> isnan center_value" "2 \<le> length neighbors"
  shows "bayes_estimator_pixel center_value neighbors variance =
     (let L = map logit neighbors;
          x = logit center_value;
          m = sum_vec L / as_double (int (length L));
          v = sum_vec (map (\<lambda>a. (a - m) * (a - m)) L) / as_double (int (length L) - 1);
          w1 = v / (variance + v);
          w2 = variance / (variance + v)
      in w1 * x + w2 * m)"
  using assms(1)
  by (simp add: bayes_estimator_pixel_def log_neigh_eq var_def mean_def logit_def Let_def)

theorem estimator_blend_formula_witness:
  "\<not> isnan (Fin 2500) \<and> 2 \<le> length [Fin 2500, Fin 2500 :: double] \<and>
   bayes_estimator_pixel (Fin 2500) [Fin 2500, Fin 2500] (Fin (1 / 10)) = Fin (ln (1 / 3))"
proof -
  have h: "\<not> isnan (Fin 2500)" "2 \<le> length [Fin 2500, Fin 2500 :: double]"
    by simp_all
  have "bayes_estimator_pixel (Fin 2500) [Fin 2500, Fin 2500] (Fin (1 / 10)) = Fin (ln (1 / 3))"
    unfolding estimator_blend_formula[OF h]
    by (simp add: logit_def sum_vec_def as_double_def minus_double_def Let_def)
  then show ?thesis using h by simp
qed

text \<open>
  Claim C3. Where the raster holds the missing value at cell \<open>(i, j)\<close>, the output of the
  pass at that cell is the missing value, and the estimator returns it for that centre
  value whatever the neighbour list and the variance are: nothing computed from them
  reaches the result.
\<close>

theorem missing_cell_missing_output:
  assumes "bayes_estimator_class raster window variance = Inr out"
    and "i < nrow raster" "j < ncol raster" "isnan (cell raster i j)"
  shows "isnan (out ! (i * ncol raster + j)) \<and>
         (\<forall>neigh v. bayes_estimator_pixel (cell raster i j) neigh v = NaN)"
  using assms by (simp add: class_Inr_nth pixel_nan)

theorem missing_cell_missing_output_witness:
  "bayes_estimator_class raster_3x3_hole window_ones (Fin 1)
     = Inr [Fin 0, Fin 0, Fin 0, Fin 0, NaN, Fin 0, Fin 0, Fin 0, Fin 0] \<and>
   1 < nrow raster_3x3_hole \<and> 1 < ncol raster_3x3_hole \<and> isnan (cell raster_3x3_hole 1 1) \<and>
   isnan ([Fin 0, Fin 0, Fin 0, Fin 0, NaN, Fin 0, Fin 0, Fin 0, Fin 0]
            ! (1 * ncol raster_3x3_hole + 1)) \<and>
   bayes_estimator_pixel (cell raster_3x3_hole 1 1) [Fin 5000, Fin 5000] (Fin 1) = NaN"
proof -
  have run: "bayes_estimator_class raster_3x3_hole window_ones (Fin 1)
     = Inr [Fin 0, Fin 0, Fin 0, Fin 0, NaN, Fin 0, Fin 0, Fin 0, Fin 0]"
    by (rule class_hole) simp
  have h: "1 < nrow raster_3x3_hole" "1 < ncol raster_3x3_hole" "isnan (cell raster_3x3_hole 1 1)"
    by (simp_all add: raster_3x3_hole_def)
  show ?thesis
    using missing_cell_missing_output[OF run h] run h by blast
qed

text \<open>
  Claim C4. Where the value of a cell is not the missing value and its gathered
  neighbour list is empty or has one element, the output of the pass at that cell is
  not-a-number: the mean of no elements is \<open>0 / 0\<close>, and the variance of one element is
  \<open>0 / 0\<close> or has a NaN numerator. The estimator has no branch and no failure for such
  a list: it returns NaN for every centre value that is not missing and every variance.
\<close>

theorem degenerate_neighbourhood_nan:
  assumes "bayes_estimator_class raster window variance = Inr out"
    and "i < nrow raster" "j < ncol raster" "\<not> isnan (cell raster i j)"
    and "length (build_neigh raster window i j) \<le> 1"
  shows "isnan (out ! (i * ncol raster + j)) \<and>
         (\<forall>p neigh v. \<not> isnan p \<and> length neigh \<le> 1 \<longrightarrow> bayes_estimator_pixel p neigh v = NaN)"
  using assms by (simp add: class_Inr_nth pixel_degenerate)

theorem degenerate_neighbourhood_nan_witness:
  "bayes_estimator_class raster_2x2 (window_1x1 1) (Fin 1) = Inr [NaN, NaN, NaN, NaN] \<and>
   0 < nrow raster_2x2 \<and> 0 < ncol raster_2x2 \<and> \<not> isnan (cell raster_2x2 0 0) \<and>
   length (build_neigh raster_2x2 (window_1x1 1) 0 0) \<le> 1 \<and>
   isnan ([NaN, NaN, NaN, NaN] ! (0 * ncol raster_2x2 + 0)) \<and>
   bayes_estimator_pixel (Fin 5000) [] (Fin 1) = NaN"
proof -
  have h: "0 < nrow raster_2x2" "0 < ncol raster_2x2" "\<not> isnan (cell raster_2x2 0 0)"
    "length (build_neigh raster_2x2 (window_1x1 1) 0 0) \<le> 1"
    by (simp_all add: raster_2x2_def) (simp add: class_1x1(2) flip: raster_2x2_def)
  have "isnan ([NaN, NaN, NaN, NaN] ! (0 * ncol raster_2x2 + 0)) \<and>
        (\<forall>p neigh v. \<not> isnan p \<and> length neigh \<le> 1 \<longrightarrow> bayes_estimator_pixel p neigh v = NaN)"
    by (rule degenerate_neighbourhood_nan[OF class_1x1(1) h])
  then have "isnan ([NaN, NaN, NaN, NaN] ! (0 * ncol raster_2x2 + 0))"
    "bayes_estimator_pixel (Fin 5000) [] (Fin 1) = NaN"
    by simp_all
  then show ?thesis
    using class_1x1(1) h by blast
qed

section \<open>Scenarios\<close>

text \<open>
  Claim C6, amended. For the \<open>3 \<times> 3\<close> raster of 5000s with the missing value at \<open>(1, 1)\<close>,
  the \<open>3 \<times> 3\<close> window of ones and any variance that is positive and finite, the output at
  \<open>(1, 1)\<close> is the missing value and the output at every other cell is finite; no
  neighbour list holds the missing value.
\<close>

theorem hole_scenario:
  assumes "0 < r"
  shows "\<exists>out. bayes_estimator_class raster_3x3_hole window_ones (Fin r) = Inr out \<and>
           length out = 9 \<and>
           isnan (out ! (1 * 3 + 1)) \<and>
           (\<forall>i<3. \<forall>j<3. (i, j) \<noteq> (1, 1) \<longrightarrow> isfinite (out ! (i * 3 + j))) \<and>
           (\<forall>i<3. \<forall>j<3. NaN \<notin> set (build_neigh raster_3x3_hole window_ones i j))"
proof -
  let ?out = "[Fin 0, Fin 0, Fin 0, Fin 0, NaN, Fin 0, Fin 0, Fin 0, Fin 0]"
  have three: "i = 0 \<or> i = 1 \<or> i = 2" if "i < 3" for i :: nat
    using that by linarith
  have fin: "\<forall>i<3. \<forall>j<3. (i, j) \<noteq> (1, 1) \<longrightarrow> isfinite (?out ! (i * 3 + j))"
  proof (intro allI impI)
    fix i j :: nat
    assume "i < 3" "j < 3" "(i, j) \<noteq> (1, 1)"
    then show "isfinite (?out ! (i * 3 + j))"
      using three[of i] three[of j] by auto
  qed
  have drop: "\<forall>i<3. \<forall>j<3. NaN \<notin> set (build_neigh raster_3x3_hole window_ones i j)"
  proof (intro allI impI)
    fix i j :: nat
    assume "i < 3" "j < 3"
    then show "NaN \<notin> set (build_neigh raster_3x3_hole window_ones i j)"
      using three[of i] three[of j] by (auto simp: hole_simps)
  qed
  show ?thesis
    using class_hole[OF assms] fin drop by simp
qed

theorem hole_scenario_witness:
  "(0::real) < 1 / 10 \<and>
   bayes_estimator_class raster_3x3_hole window_ones (Fin (1 / 10))
     = Inr [Fin 0, Fin 0, Fin 0, Fin 0, NaN, Fin 0, Fin 0, Fin 0, Fin 0] \<and>
   NaN \<notin> set (build_neigh raster_3x3_hole window_ones 0 1)"
proof -
  have h: "(0::real) < 1 / 10" by simp
  obtain out where out: "bayes_estimator_class raster_3x3_hole window_ones (Fin (1 / 10)) = Inr out"
    and "\<forall>i<3. \<forall>j<3. NaN \<notin> set (build_neigh raster_3x3_hole window_ones i j)"
    using hole_scenario[OF h] by blast
  then have "NaN \<notin> set (build_neigh raster_3x3_hole window_ones 0 1)"
    by simp
  then show ?thesis
    using h class_hole[OF h] by simp
qed

text \<open>
  The claim as stated, for any positive variance, fails at the variance \<open>+\<infinity>\<close>: the
  weight \<open>w2 = variance / (variance + v)\<close> is \<open>\<infinity> / \<infinity>\<close>, and every output is NaN.
\<close>

theorem hole_scenario_infinite_variance_counterexample:
  "bayes_estimator_class raster_3x3_hole window_ones PInf
     = Inr [NaN, NaN, NaN, NaN, NaN, NaN, NaN, NaN, NaN]"
proof -
  have dims: "nrow raster_3x3_hole = 3" "ncol raster_3x3_hole = 3"
    by (simp_all add: raster_3x3_hole_def)
  have p: "bayes_estimator_pixel (Fin 5000) [Fin 5000, Fin 5000, Fin 5000] PInf = NaN"
    "bayes_estimator_pixel (Fin 5000) [Fin 5000, Fin 5000, Fin 5000, Fin 5000, Fin 5000] PInf = NaN"
    by (simp_all add: pixel_simps)
  show ?thesis
    by (simp add: class_Inr_iff dims int_max_def estimate_rows_def estimate_cell_def upt_3
        hole_simps p pixel_nan)
qed

text \<open>
  Claim C8. The output is not invariant under a uniform scaling of the window weights:
  there are a raster, a window, a variance and an integer \<open>c > 1\<close> for which the pass
  returns different outputs with the window and with the window whose every weight is
  multiplied by \<open>c\<close>. For the \<open>1 \<times> 2\<close> raster of 2500s, the \<open>1 \<times> 3\<close> window of ones, the
  variance \<open>0.1\<close> and \<open>c = 2\<close> the outputs are \<open>ln (1 / 3)\<close> and \<open>0\<close> at both cells.
\<close>

theorem window_scaling_changes_output:
  "\<exists>raster window variance c.
     1 < c \<and>
     (\<exists>out out'. bayes_estimator_class raster window variance = Inr out \<and>
        bayes_estimator_class raster (scale_window c window) variance = Inr out' \<and>
        out' \<noteq> out)"
proof -
  have "(1::int) < 2 \<and>
     (\<exists>out out'. bayes_estimator_class raster_1x2 window_1x3 (Fin (1 / 10)) = Inr out \<and>
        bayes_estimator_class raster_1x2 (scale_window 2 window_1x3) (Fin (1 / 10)) = Inr out' \<and>
        out' \<noteq> out)"
    by (simp add: class_1x2)
  then show ?thesis by blast
qed

end
